theory Spec2Isabelle
  imports Complex_Main
begin

section \<open>Rules and their textual form\<close>

text \<open>
  The sorter of \<^verbatim>\<open>src/ds-sorter.ts\<close> orders elements by a list of rules. A rule names
  what to read from an element: an attribute (a string key) or a path of properties (an
  array key), optionally on a descendant found by a selector, and optionally descending.
  The fields \<^verbatim>\<open>selector\<close> and \<^verbatim>\<open>descending\<close> are optional in the interface, so
  they are options here: \<open>None\<close> is the field left \<^verbatim>\<open>undefined\<close>.

  Strings are lists of code units below 256.
\<close>

datatype rule_key = Attr string | Path "string list"

record rule =
  key :: rule_key
  selector :: "string option"
  descending :: "bool option"

subsection \<open>The pieces of the parser\<close>

text \<open>
  The white space class \<^verbatim>\<open>\s\<close> of the regular expressions, on code units below 256:
  tab, line feed, vertical tab, form feed, carriage return, space and no-break space.
\<close>

definition is_space :: "char \<Rightarrow> bool" where
  "is_space c \<longleftrightarrow>
     c = CHR 0x09 \<or> c = CHR 0x0A \<or> c = CHR 0x0B \<or> c = CHR 0x0C \<or> c = CHR 0x0D
     \<or> c = CHR '' '' \<or> c = CHR 0xA0"

text \<open>
  The body of the lookahead, \<^verbatim>\<open>[^{}]*\}\<close>, tried at the start of a string: it succeeds
  when the first brace met is a closing one.
\<close>

fun closesBrace :: "string \<Rightarrow> bool" where
  "closesBrace [] = False"
| "closesBrace (c # cs) =
     (if c = CHR ''}'' then True else if c = CHR ''{'' then False else closesBrace cs)"

text \<open>
  \<^verbatim>\<open>value.split(/,\s*(?![^{}]*\})/)\<close>. The scan keeps the piece read so far. At a comma
  the expression takes the comma and all the white space after it, and matches when the
  negative lookahead does, that is, when \<open>closesBrace\<close> fails on what follows. Giving
  back white space cannot turn a failed lookahead into a match, since white space is no
  brace (lemma \<open>closesBrace_spaces\<close> below), so a comma either matches with all its
  white space or not at all. A match ends the piece; any other character joins it.
\<close>

function splitRules :: "string \<Rightarrow> string \<Rightarrow> string list" where
  "splitRules piece [] = [piece]"
| "splitRules piece (c # cs) =
     (if c = CHR '','' \<and> \<not> closesBrace (dropWhile is_space cs)
      then piece # splitRules [] (dropWhile is_space cs)
      else splitRules (piece @ [c]) cs)"
  by pat_completeness auto
termination
  by (relation "measure (\<lambda>(piece, s). length s)")
     (auto simp: less_Suc_eq_le length_dropWhile_le)

text \<open>\<^verbatim>\<open>.replace('{', '')\<close>: a string pattern replaces its first occurrence only.\<close>

fun removeFirstBrace :: "string \<Rightarrow> string" where
  "removeFirstBrace [] = []"
| "removeFirstBrace (c # cs) = (if c = CHR ''{'' then cs else c # removeFirstBrace cs)"

text \<open>\<^verbatim>\<open>.split(/\}\s*/)\<close>: a closing brace and all the white space after it separate.\<close>

function splitSelector :: "string \<Rightarrow> string \<Rightarrow> string list" where
  "splitSelector piece [] = [piece]"
| "splitSelector piece (c # cs) =
     (if c = CHR ''}''
      then piece # splitSelector [] (dropWhile is_space cs)
      else splitSelector (piece @ [c]) cs)"
  by pat_completeness auto
termination
  by (relation "measure (\<lambda>(piece, s). length s)")
     (auto simp: less_Suc_eq_le length_dropWhile_le)

text \<open>\<^verbatim>\<open>key.split('.')\<close>: every dot separates; the empty string gives one empty piece.\<close>

fun splitDot :: "string \<Rightarrow> string \<Rightarrow> string list" where
  "splitDot piece [] = [piece]"
| "splitDot piece (c # cs) =
     (if c = CHR ''.'' then piece # splitDot [] cs else splitDot (piece @ [c]) cs)"

text \<open>
  \<^verbatim>\<open>[rawKey, selector] = ... .reverse()\<close> takes the first two entries of the reversed
  pieces; an entry that is not there is \<^verbatim>\<open>undefined\<close>. The split always gives at least
  one piece (lemma \<open>splitSelector_not_Nil\<close>), so \<open>rawKey\<close> is always a string.
\<close>

definition rawKeyOf :: "string list \<Rightarrow> string" where
  "rawKeyOf parts = (case parts of [] \<Rightarrow> [] | k # _ \<Rightarrow> k)"

definition selectorOf :: "string list \<Rightarrow> string option" where
  "selectorOf parts = (case parts of _ # s # _ \<Rightarrow> Some s | _ \<Rightarrow> None)"

definition startsWith :: "char \<Rightarrow> string \<Rightarrow> bool" where
  "startsWith c s = (case s of [] \<Rightarrow> False | d # _ \<Rightarrow> d = c)"

text \<open>The key expression of a clause: \<open>rawKey\<close> without its leading \<^verbatim>\<open>>\<close>.\<close>

definition keyExpr :: "string \<Rightarrow> string" where
  "keyExpr rawKey = (if startsWith CHR ''>'' rawKey then tl rawKey else rawKey)"

text \<open>
  The callback of \<^verbatim>\<open>stringRules.map\<close>. A key expression with a leading dot is split at
  its dots and loses the first piece (\<^verbatim>\<open>[, ...key] = key.split('.')\<close>); after that, a
  key that is the empty string becomes \<^verbatim>\<open>['innerText']\<close>.
\<close>

definition parseRule :: "string \<Rightarrow> rule" where
  "parseRule stringRule =
     (let parts = rev (splitSelector [] (removeFirstBrace stringRule));
          rawKey = rawKeyOf parts;
          desc = startsWith CHR ''>'' rawKey;
          k0 = keyExpr rawKey;
          k1 = (if startsWith CHR ''.'' k0 then Path (tl (splitDot [] k0)) else Attr k0);
          k2 = (if k1 = Attr [] then Path [''innerText''] else k1)
      in \<lparr>key = k2, selector = selectorOf parts, descending = Some desc\<rparr>)"

text \<open>\<^verbatim>\<open>parseToRules\<close>: \<^verbatim>\<open>null\<close> and the empty string give no rules.\<close>

definition parseToRules :: "string option \<Rightarrow> rule list" where
  "parseToRules v =
     (case v of
        None \<Rightarrow> []
      | Some s \<Rightarrow> if s = [] then [] else map parseRule (splitRules [] s))"

subsection \<open>The getter of \<^verbatim>\<open>by\<close>\<close>

text \<open>\<^verbatim>\<open>Array.prototype.join\<close> on strings.\<close>

fun join :: "string \<Rightarrow> string list \<Rightarrow> string" where
  "join sep [] = []"
| "join sep [x] = x"
| "join sep (x # y # ys) = x @ sep @ join sep (y # ys)"

text \<open>
  The template of one rule: the selector in braces when it is truthy (neither
  \<^verbatim>\<open>undefined\<close> nor empty), then a space, then \<^verbatim>\<open>>\<close> when descending is truthy, then the
  key.
\<close>

definition renderRule :: "rule \<Rightarrow> string" where
  "renderRule r =
     (case selector r of
        None \<Rightarrow> []
      | Some s \<Rightarrow> if s = [] then [] else ''{'' @ s @ ''}'')
     @ '' ''
     @ (if descending r = Some True then ''>'' else [])
     @ (case key r of Attr k \<Rightarrow> k | Path p \<Rightarrow> ''.'' @ join ''.'' p)"

definition by_getter :: "rule list \<Rightarrow> string" where
  "by_getter rs = join '', '' (map renderRule rs)"

section \<open>Values, elements and the sorter\<close>

text \<open>
  A number is a double: not-a-number, an infinity, or a finite value, kept as a rational
  (the two zeros are not told apart; nothing below does). An object carries its identity
  (strict equality of objects compares identities), the properties that \<^verbatim>\<open>in\<close> and a
  property read see, and what calling its \<^verbatim>\<open>valueOf\<close> does: the member can be missing,
  can return the object itself (as \<^verbatim>\<open>Object.prototype.valueOf\<close> does), or can return
  some other value. A \<^verbatim>\<open>valueOf\<close> that is there is callable: a member that is no
  function, on which the call would throw, is not modelled. Symbols and functions carry an
  identity as well; a symbol has an optional description.
\<close>

datatype jsnum = NaN | NegInf | Fin rat | PosInf

datatype 'v valueof = NotImplemented | ReturnsThis | Returns 'v

datatype jsval =
    Undefined
  | Null
  | Num jsnum
  | Str string
  | Bool bool
  | BigInt int
  | Symbol nat "string option"
  | Function nat
  | Object nat "string \<Rightarrow> jsval option" "jsval valueof"

datatype jstype =
  TUndefined | TObject | TNumber | TString | TBoolean | TBigint | TSymbol | TFunction

fun typeof :: "jsval \<Rightarrow> jstype" where
  "typeof Undefined = TUndefined"
| "typeof Null = TObject"
| "typeof (Num _) = TNumber"
| "typeof (Str _) = TString"
| "typeof (Bool _) = TBoolean"
| "typeof (BigInt _) = TBigint"
| "typeof (Symbol _ _) = TSymbol"
| "typeof (Function _) = TFunction"
| "typeof (Object _ _ _) = TObject"

text \<open>\<^verbatim>\<open>v == undefined\<close>: true of \<^verbatim>\<open>undefined\<close> and of \<^verbatim>\<open>null\<close>.\<close>

fun nullish :: "jsval \<Rightarrow> bool" where
  "nullish Undefined = True"
| "nullish Null = True"
| "nullish _ = False"

fun isNull :: "jsval \<Rightarrow> bool" where
  "isNull Null = True"
| "isNull _ = False"

fun isNaN :: "jsval \<Rightarrow> bool" where
  "isNaN (Num NaN) = True"
| "isNaN _ = False"

text \<open>\<^verbatim>\<open>x === y\<close>: not-a-number equals nothing, objects are equal when they are the same.\<close>

fun strict_eq :: "jsval \<Rightarrow> jsval \<Rightarrow> bool" where
  "strict_eq Undefined Undefined = True"
| "strict_eq Null Null = True"
| "strict_eq (Num m) (Num n) = (m \<noteq> NaN \<and> n \<noteq> NaN \<and> m = n)"
| "strict_eq (Str s) (Str t) = (s = t)"
| "strict_eq (Bool a) (Bool b) = (a = b)"
| "strict_eq (BigInt i) (BigInt j) = (i = j)"
| "strict_eq (Symbol i _) (Symbol j _) = (i = j)"
| "strict_eq (Function i) (Function j) = (i = j)"
| "strict_eq (Object i _ _) (Object j _ _) = (i = j)"
| "strict_eq _ _ = False"

text \<open>
  \<^verbatim>\<open>x < y\<close>. Two strings compare by code units. Numbers, booleans and big integers
  compare by their numeric values, and any comparison with not-a-number is false. Every
  other pair (a string against a number, an object, a function, a symbol) goes through
  conversions of the host that are not modelled: the parameter \<open>host_lt\<close> stands for the
  outcome. A comparison that throws (one with a symbol) is outside the model.
\<close>

fun str_lt :: "string \<Rightarrow> string \<Rightarrow> bool" where
  "str_lt [] [] = False"
| "str_lt [] (y # ys) = True"
| "str_lt (x # xs) [] = False"
| "str_lt (x # xs) (y # ys) =
     (if x = y then str_lt xs ys else (of_char x :: nat) < of_char y)"

fun num_lt :: "jsnum \<Rightarrow> jsnum \<Rightarrow> bool" where
  "num_lt NaN _ = False"
| "num_lt _ NaN = False"
| "num_lt _ NegInf = False"
| "num_lt NegInf _ = True"
| "num_lt PosInf _ = False"
| "num_lt _ PosInf = True"
| "num_lt (Fin a) (Fin b) = (a < b)"

fun to_numeric :: "jsval \<Rightarrow> jsnum option" where
  "to_numeric (Num n) = Some n"
| "to_numeric (Bool b) = Some (Fin (if b then 1 else 0))"
| "to_numeric (BigInt i) = Some (Fin (of_int i))"
| "to_numeric _ = None"

fun js_lt :: "(jsval \<Rightarrow> jsval \<Rightarrow> bool) \<Rightarrow> jsval \<Rightarrow> jsval \<Rightarrow> bool" where
  "js_lt host_lt (Str s) (Str t) = str_lt s t"
| "js_lt host_lt x y =
     (case (to_numeric x, to_numeric y) of
        (Some m, Some n) \<Rightarrow> num_lt m n
      | _ \<Rightarrow> host_lt x y)"

text \<open>Unary minus on numbers; \<^verbatim>\<open>x * -1\<close> is the same, and \<^verbatim>\<open>x * 1\<close> is \<open>x\<close>.\<close>

fun js_neg :: "jsnum \<Rightarrow> jsnum" where
  "js_neg NaN = NaN"
| "js_neg NegInf = PosInf"
| "js_neg (Fin q) = Fin (- q)"
| "js_neg PosInf = NegInf"

text \<open>
  An element, as far as the sorter looks at it: \<^verbatim>\<open>getAttribute\<close> (\<open>None\<close> is \<^verbatim>\<open>null\<close>),
  its properties (\<open>None\<close> where \<^verbatim>\<open>name in elem\<close> is false) and \<^verbatim>\<open>querySelector\<close>
  (\<open>None\<close> is \<^verbatim>\<open>null\<close>). These calls are taken to return: a selector that the host
  rejects, or a getter that throws, is outside the model. The warnings written to the
  console are not part of the result and are left out.
\<close>

datatype element = Element
  (getAttribute: "string \<Rightarrow> string option")
  (property: "string \<Rightarrow> jsval option")
  (querySelector: "string \<Rightarrow> element option")

text \<open>
  \<^verbatim>\<open>selector ? sortingElem.querySelector(selector) : sortingElem\<close>: an empty selector
  is falsy, like a missing one.
\<close>

definition resolve :: "element \<Rightarrow> string option \<Rightarrow> element option" where
  "resolve sortingElem sel =
     (case sel of
        None \<Rightarrow> Some sortingElem
      | Some s \<Rightarrow> if s = [] then Some sortingElem else querySelector sortingElem s)"

text \<open>
  The loop over \<open>nestedProps\<close>. \<open>None\<close> is one of its two early returns (the property
  so far is nullish or no object, or it lacks the next name); \<open>Some\<close> is the property the
  loop ends with.
\<close>

fun traverse :: "jsval \<Rightarrow> string list \<Rightarrow> jsval option" where
  "traverse prop [] = Some prop"
| "traverse prop (nestedProp # rest) =
     (if nullish prop \<or> typeof prop \<noteq> TObject then None
      else case prop of
             Object _ props _ \<Rightarrow>
               (case props nestedProp of None \<Rightarrow> None | Some v \<Rightarrow> traverse v rest)
           | _ \<Rightarrow> None)"

text \<open>Reading a property of an object: \<^verbatim>\<open>undefined\<close> when it is not there.\<close>

fun getProp :: "jsval \<Rightarrow> string \<Rightarrow> jsval" where
  "getProp (Object _ props _) name = (case props name of None \<Rightarrow> Undefined | Some v \<Rightarrow> v)"
| "getProp _ name = Undefined"

text \<open>\<^verbatim>\<open>prop?.valueOf?.()\<close> on an object.\<close>

fun valueOfCall :: "jsval \<Rightarrow> jsval" where
  "valueOfCall (Object i props NotImplemented) = Undefined"
| "valueOfCall (Object i props ReturnsThis) = Object i props ReturnsThis"
| "valueOfCall (Object i props (Returns v)) = v"
| "valueOfCall _ = Undefined"

text \<open>\<^verbatim>\<open>x ?? y\<close>.\<close>

definition coalesce :: "jsval \<Rightarrow> jsval \<Rightarrow> jsval" where
  "coalesce x y = (if nullish x then y else x)"

definition returnAsIs :: "jstype list" where
  "returnAsIs = [TNumber, TString, TBoolean, TBigint, TUndefined]"

text \<open>The end of \<^verbatim>\<open>#getValue\<close>, after the loop, in the order of the source.\<close>

definition normalizeValue :: "jsval \<Rightarrow> jsval" where
  "normalizeValue prop =
     (if typeof prop = TNumber \<and> isNaN prop then Undefined
      else if typeof prop \<in> set returnAsIs \<or> isNull prop then prop
      else if typeof prop = TSymbol then
        (case prop of Symbol _ (Some description) \<Rightarrow> Str description | _ \<Rightarrow> Undefined)
      else if typeof prop = TFunction then Bool True
      else if typeof prop = TObject then coalesce (getProp prop ''length'') (valueOfCall prop)
      else Undefined)"

text \<open>
  \<^verbatim>\<open>#getValue\<close>. Destructuring an empty key array leaves \<open>firstProp\<close> undefined, and
  \<^verbatim>\<open>undefined in elem\<close> asks for the property named \<^verbatim>\<open>"undefined"\<close>.
\<close>

definition getValue :: "element \<Rightarrow> rule \<Rightarrow> jsval" where
  "getValue sortingElem r =
     (case resolve sortingElem (selector r) of
        None \<Rightarrow> Undefined
      | Some elem \<Rightarrow>
          (case key r of
             Attr k \<Rightarrow> (case getAttribute elem k of None \<Rightarrow> Null | Some s \<Rightarrow> Str s)
           | Path p \<Rightarrow>
               (let firstProp = (case p of [] \<Rightarrow> ''undefined'' | f # _ \<Rightarrow> f);
                    nestedProps = tl p
                in case property elem firstProp of
                     None \<Rightarrow> Undefined
                   | Some prop \<Rightarrow>
                       (case traverse prop nestedProps of
                          None \<Rightarrow> Undefined
                        | Some v \<Rightarrow> normalizeValue v))))"

text \<open>
  The fields of the component that the comparison reads. A custom comparator is a
  function of the two elements.
\<close>

record sorter =
  random :: bool
  rules :: "rule list"
  comparator :: "(element \<Rightarrow> element \<Rightarrow> jsnum) option"
  reverse :: bool

text \<open>
  \<^verbatim>\<open>#compareElements\<close>. The argument \<open>rnd\<close> is what \<^verbatim>\<open>Math.random()\<close> returns
  when this call asks for it. The last line of the tie branch,
  \<^verbatim>\<open>restRules.length && this.#compareElements(a, b, restRules)\<close>, is \<open>0\<close> when no rule is
  left and the recursive call otherwise.
\<close>

fun compareElements ::
  "(jsval \<Rightarrow> jsval \<Rightarrow> bool) \<Rightarrow> sorter \<Rightarrow> rat \<Rightarrow> element \<Rightarrow> element \<Rightarrow> rule list \<Rightarrow> jsnum"
where
  "compareElements host_lt this rnd a b rs =
     (if random this then Fin (rnd - 1 / 2)
      else case comparator this of
        Some cmp \<Rightarrow> (if reverse this then js_neg (cmp a b) else cmp a b)
      | None \<Rightarrow>
         (case rs of
            [] \<Rightarrow> Fin 0
          | r # restRules \<Rightarrow>
             (let desc = (case descending r of None \<Rightarrow> False | Some d \<Rightarrow> d);
                  firstVal = getValue a r;
                  secondVal = getValue b r;
                  lesser = (if reverse this \<noteq> desc then Fin 1 else Fin (- 1));
                  greater = js_neg lesser
              in if (nullish firstVal \<and> nullish secondVal) \<or> strict_eq firstVal secondVal
                 then (if restRules = [] then Fin 0
                       else compareElements host_lt this rnd a b restRules)
                 else if nullish firstVal \<and> \<not> nullish secondVal then greater
                 else if \<not> nullish firstVal \<and> nullish secondVal then lesser
                 else if js_lt host_lt firstVal secondVal then lesser
                 else greater)))"

text \<open>Called by the sort with two arguments, the rules default to \<^verbatim>\<open>this.rules\<close>.\<close>

definition compare :: "(jsval \<Rightarrow> jsval \<Rightarrow> bool) \<Rightarrow> sorter \<Rightarrow> rat \<Rightarrow> element \<Rightarrow> element \<Rightarrow> jsnum" where
  "compare host_lt this rnd a b = compareElements host_lt this rnd a b (rules this)"

section \<open>Notions of the specification\<close>

text \<open>
  The key expression of a clause is what is left of it once the selector and the \<^verbatim>\<open>>\<close>
  are stripped.
\<close>

definition clauseKeyExpr :: "string \<Rightarrow> string" where
  "clauseKeyExpr clause = keyExpr (rawKeyOf (rev (splitSelector [] (removeFirstBrace clause))))"

text \<open>
  The effective direction of a rule is the exclusive or of the global \<^verbatim>\<open>reverse\<close> and
  the rule's own \<^verbatim>\<open>descending\<close>, which counts as false when it is left out.
\<close>

definition effectiveDescending :: "bool \<Rightarrow> rule \<Rightarrow> bool" where
  "effectiveDescending rv r = (rv \<noteq> (case descending r of None \<Rightarrow> False | Some d \<Rightarrow> d))"

text \<open>Two rules read the same value when they agree on key and selector.\<close>

definition sameLookup :: "rule \<Rightarrow> rule \<Rightarrow> bool" where
  "sameLookup r r' \<longleftrightarrow> key r = key r' \<and> selector r = selector r'"

text \<open>
  An object is array-like when its \<^verbatim>\<open>length\<close> is a number. A primitive is any value
  but an object or a function. An object has a primitive conversion when it has a
  \<^verbatim>\<open>valueOf\<close> that returns a primitive; that primitive is the conversion. The value the
  specification gives an object: its length if it is array-like, else its primitive
  conversion if it has one, else \<^verbatim>\<open>undefined\<close>.
\<close>

definition arrayLike :: "jsval \<Rightarrow> bool" where
  "arrayLike obj \<longleftrightarrow> typeof (getProp obj ''length'') = TNumber"

fun isPrimitive :: "jsval \<Rightarrow> bool" where
  "isPrimitive (Object _ _ _) = False"
| "isPrimitive (Function _) = False"
| "isPrimitive _ = True"

fun primitiveConversion :: "jsval \<Rightarrow> jsval option" where
  "primitiveConversion (Object _ _ (Returns v)) = (if isPrimitive v then Some v else None)"
| "primitiveConversion _ = None"

definition specObjectValue :: "jsval \<Rightarrow> jsval" where
  "specObjectValue obj =
     (if arrayLike obj then getProp obj ''length''
      else case primitiveConversion obj of Some v \<Rightarrow> v | None \<Rightarrow> Undefined)"

text \<open>
  Splitting as the specification words it: the text is cut at every comma that no pair of
  curly braces encloses, that is, at every comma met at brace depth 0. The comma and the
  white space after it go; everything else stays in its piece.
\<close>

function specSplit :: "nat \<Rightarrow> string \<Rightarrow> string \<Rightarrow> string list" where
  "specSplit depth piece [] = [piece]"
| "specSplit depth piece (c # cs) =
     (if c = CHR '','' \<and> depth = 0
      then piece # specSplit 0 [] (dropWhile is_space cs)
      else specSplit
             (if c = CHR ''{'' then Suc depth else if c = CHR ''}'' then depth - 1 else depth)
             (piece @ [c]) cs)"
  by pat_completeness auto
termination
  by (relation "measure (\<lambda>(depth, piece, s). length s)")
     (auto simp: less_Suc_eq_le length_dropWhile_le)

text \<open>
  The braces of a text are paired and not nested when, read from depth 0, an opening brace
  comes only at depth 0, a closing brace only at depth 1, and the text ends at depth 0.
\<close>

fun wellBraced :: "nat \<Rightarrow> string \<Rightarrow> bool" where
  "wellBraced depth [] = (depth = 0)"
| "wellBraced depth (c # cs) =
     (if c = CHR ''{'' then depth = 0 \<and> wellBraced 1 cs
      else if c = CHR ''}'' then depth = 1 \<and> wellBraced 0 cs
      else wellBraced depth cs)"


section \<open>Example elements\<close>

definition no_host_lt :: "jsval \<Rightarrow> jsval \<Rightarrow> bool" where
  "no_host_lt x y = False"

definition plain :: sorter where
  "plain = \<lparr>random = False, rules = [], comparator = None, reverse = False\<rparr>"

definition attrs :: "(string \<times> string) list \<Rightarrow> element" where
  "attrs kvs = Element (map_of kvs) (\<lambda>_. None) (\<lambda>_. None)"

definition props :: "(string \<times> jsval) list \<Rightarrow> element" where
  "props kvs = Element (\<lambda>_. None) (map_of kvs) (\<lambda>_. None)"

definition attrRule :: "string \<Rightarrow> bool \<Rightarrow> rule" where
  "attrRule k d = \<lparr>key = Attr k, selector = None, descending = Some d\<rparr>"

definition propRule :: "string list \<Rightarrow> bool \<Rightarrow> rule" where
  "propRule p d = \<lparr>key = Path p, selector = None, descending = Some d\<rparr>"

section \<open>The parser\<close>

lemma closesBrace_spaces: "closesBrace (dropWhile is_space cs) = closesBrace cs"
  by (induction cs) (auto simp: is_space_def)

lemma splitSelector_not_Nil: "splitSelector piece s \<noteq> []"
  by (induction piece s rule: splitSelector.induct) auto

lemmas parse_defs =
  parseToRules_def parseRule_def rawKeyOf_def selectorOf_def startsWith_def keyExpr_def
  is_space_def

text \<open>
  Up to the next closing brace, text without braces is never split: its commas stay in
  the piece.
\<close>

lemma closesBrace_before_close:
  "CHR ''{'' \<notin> set sel \<Longrightarrow> closesBrace (sel @ CHR ''}'' # post)"
  by (induction sel) auto

lemma splitRules_inside_braces:
  "CHR ''{'' \<notin> set sel \<Longrightarrow> CHR ''}'' \<notin> set sel \<Longrightarrow>
   splitRules piece (sel @ CHR ''}'' # post) = splitRules (piece @ sel) (CHR ''}'' # post)"
proof (induction sel arbitrary: piece)
  case Nil
  then show ?case by simp
next
  case (Cons c cs)
  have "closesBrace (dropWhile is_space (cs @ CHR ''}'' # post))"
    using Cons.prems by (simp add: closesBrace_spaces closesBrace_before_close)
  then have "splitRules piece ((c # cs) @ CHR ''}'' # post) =
             splitRules (piece @ [c]) (cs @ CHR ''}'' # post)"
    by simp
  also have "\<dots> = splitRules ((piece @ [c]) @ cs) (CHR ''}'' # post)"
    using Cons.IH [of "piece @ [c]"] Cons.prems by simp
  finally show ?case by simp
qed

text \<open>
  On text whose braces are paired and not nested, the lookahead sees a closing brace first
  exactly inside a pair of braces, so the parser's split is the split at the commas
  outside braces.
\<close>

lemma wellBraced_closesBrace: "wellBraced depth s \<Longrightarrow> closesBrace s = (depth \<noteq> 0)"
  by (induction s arbitrary: depth) (auto split: if_splits)

lemma wellBraced_dropWhile_space:
  "wellBraced depth s \<Longrightarrow> wellBraced depth (dropWhile is_space s)"
  by (induction s) (auto simp: is_space_def split: if_splits)

lemma splitRules_specSplit:
  "wellBraced depth s \<Longrightarrow> splitRules piece s = specSplit depth piece s"
proof (induction piece s arbitrary: depth rule: splitRules.induct)
  case (1 piece)
  show ?case by simp
next
  case (2 piece c cs)
  show ?case
  proof (cases "c = CHR '',''")
    case True
    with "2.prems" have wb: "wellBraced depth cs" by simp
    then have cb: "closesBrace (dropWhile is_space cs) = (depth \<noteq> 0)"
      by (simp add: closesBrace_spaces wellBraced_closesBrace)
    show ?thesis
    proof (cases "depth = 0")
      case True
      with \<open>c = CHR '',''\<close> cb wb "2.IH"(1) [of 0] show ?thesis
        by (simp add: wellBraced_dropWhile_space)
    next
      case False
      with \<open>c = CHR '',''\<close> cb wb "2.IH"(2) [of depth] show ?thesis by simp
    qed
  next
    case False
    then have step: "splitRules piece (c # cs) = splitRules (piece @ [c]) cs" by simp
    let ?d = "if c = CHR ''{'' then Suc depth else if c = CHR ''}'' then depth - 1 else depth"
    from "2.prems" have "wellBraced ?d cs" by (auto split: if_splits)
    with False "2.IH"(2) [of ?d]
    have "splitRules (piece @ [c]) cs = specSplit ?d (piece @ [c]) cs"
      by simp
    with step False show ?thesis by simp
  qed
qed

text \<open>
  Claim C3, amended. On input whose curly braces are paired and not nested, parsing splits
  exactly at the commas that no pair of braces encloses: the clauses are the pieces
  between those commas, without the white space after each. Parsing \<^verbatim>\<open>"{a, b} x, y"\<close>
  gives exactly two rules: the first has the selector \<^verbatim>\<open>"a, b"\<close> and the attribute key
  \<^verbatim>\<open>x\<close>, the second has the attribute key \<^verbatim>\<open>y\<close> and no selector.
\<close>

theorem parse_splits_outside_braces:
  "(wellBraced 0 s \<longrightarrow> splitRules [] s = specSplit 0 [] s)
   \<and> (wellBraced 0 s \<and> s \<noteq> [] \<longrightarrow> parseToRules (Some s) = map parseRule (specSplit 0 [] s))
   \<and> parseToRules (Some ''{a, b} x, y'') =
       [\<lparr>key = Attr ''x'', selector = Some ''a, b'', descending = Some False\<rparr>,
        \<lparr>key = Attr ''y'', selector = None, descending = Some False\<rparr>]"
proof (intro conjI impI)
  assume "wellBraced 0 s"
  then show "splitRules [] s = specSplit 0 [] s" by (rule splitRules_specSplit)
next
  assume "wellBraced 0 s \<and> s \<noteq> []"
  then show "parseToRules (Some s) = map parseRule (specSplit 0 [] s)"
    using splitRules_specSplit [of 0 s "[]"] by (simp add: parseToRules_def)
next
  show "parseToRules (Some ''{a, b} x, y'') =
       [\<lparr>key = Attr ''x'', selector = Some ''a, b'', descending = Some False\<rparr>,
        \<lparr>key = Attr ''y'', selector = None, descending = Some False\<rparr>]"
    by (simp add: parse_defs)
qed

text \<open>The example of the claim, and a text with two commas and no braces.\<close>

theorem parse_splits_outside_braces_witness:
  "wellBraced 0 ''{a, b} x, y''
   \<and> specSplit 0 [] ''{a, b} x, y'' = [''{a, b} x'', ''y'']
   \<and> splitRules [] ''{a, b} x, y'' = [''{a, b} x'', ''y'']
   \<and> wellBraced 0 ''x, y, z''
   \<and> specSplit 0 [] ''x, y, z'' = [''x'', ''y'', ''z'']
   \<and> splitRules [] ''x, y, z'' = [''x'', ''y'', ''z'']
   \<and> parseToRules (Some ''x, y, z'') = map parseRule [''x'', ''y'', ''z'']"
  using parse_splits_outside_braces [of "''{a, b} x, y''"]
    parse_splits_outside_braces [of "''x, y, z''"]
  by (simp add: is_space_def)

text \<open>
  With nested braces the comma after \<^verbatim>\<open>a\<close> is inside the outer pair and splits all the
  same, because the next brace after it is an opening one. With a closing brace that
  nothing opens, the comma before it is outside every pair and does not split.
\<close>

theorem parse_splits_by_next_brace:
  "splitRules [] ''{a, {b} c} x'' = [''{a'', ''{b} c} x'']
   \<and> specSplit 0 [] ''{a, {b} c} x'' = [''{a, {b} c} x'']
   \<and> parseToRules (Some ''{a, {b} c} x'') =
       [\<lparr>key = Attr ''a'', selector = None, descending = Some False\<rparr>,
        \<lparr>key = Attr ''x'', selector = Some ''c'', descending = Some False\<rparr>]
   \<and> splitRules [] ''x, y} z'' = [''x, y} z'']
   \<and> specSplit 0 [] ''x, y} z'' = [''x'', ''y} z'']"
  by (simp add: parse_defs)

subsection \<open>Keys of parsed rules\<close>

lemma splitDot_not_Nil: "splitDot piece s \<noteq> []"
  by (induction s arbitrary: piece) auto

lemma splitDot_no_dot:
  "CHR ''.'' \<notin> set piece \<Longrightarrow> \<forall>x \<in> set (splitDot piece s). CHR ''.'' \<notin> set x"
proof (induction s arbitrary: piece)
  case Nil
  then show ?case by simp
next
  case (Cons c cs)
  show ?case
  proof (cases "c = CHR ''.''")
    case True
    have "\<forall>x \<in> set (splitDot [] cs). CHR ''.'' \<notin> set x"
      using Cons.IH [of "[]"] by simp
    with Cons.prems True show ?thesis by simp
  next
    case False
    have "\<forall>x \<in> set (splitDot (piece @ [c]) cs). CHR ''.'' \<notin> set x"
      using Cons.IH [of "piece @ [c]"] Cons.prems False by simp
    with False show ?thesis by simp
  qed
qed

lemma join_Cons: "xs \<noteq> [] \<Longrightarrow> join sep (x # xs) = x @ sep @ join sep xs"
  by (cases xs) auto

text \<open>Joining the pieces with dots gives the string back.\<close>

lemma join_splitDot: "join ''.'' (splitDot piece s) = piece @ s"
  by (induction s arbitrary: piece) (auto simp: join_Cons splitDot_not_Nil)

lemma parseRule_key:
  "key (parseRule clause) =
     (if startsWith CHR ''.'' (clauseKeyExpr clause)
      then Path (splitDot [] (tl (clauseKeyExpr clause)))
      else if clauseKeyExpr clause = [] then Path [''innerText'']
      else Attr (clauseKeyExpr clause))"
  by (cases "clauseKeyExpr clause")
     (auto simp: parseRule_def clauseKeyExpr_def Let_def startsWith_def)

lemma parseRule_key_not_empty:
  "key (parseRule clause) \<noteq> Attr [] \<and> key (parseRule clause) \<noteq> Path []"
  by (simp add: parseRule_key splitDot_not_Nil)

text \<open>
  The segments of a path key are the pieces of the key expression between its dots, so
  none of them holds a dot, and they are empty where two dots meet or a dot ends the
  expression.
\<close>

lemma parseRule_segments:
  assumes "key (parseRule clause) = Path segs"
  shows "(\<forall>s \<in> set segs. CHR ''.'' \<notin> set s) \<and>
         (clauseKeyExpr clause = ''.'' @ join ''.'' segs \<or>
          clauseKeyExpr clause = [] \<and> segs = [''innerText''])"
proof (cases "startsWith CHR ''.'' (clauseKeyExpr clause)")
  case True
  then obtain rest where k: "clauseKeyExpr clause = CHR ''.'' # rest"
    by (auto simp: startsWith_def split: list.splits)
  with assms have segs: "segs = splitDot [] rest"
    by (simp add: parseRule_key startsWith_def)
  have "\<forall>s \<in> set segs. CHR ''.'' \<notin> set s"
    unfolding segs using splitDot_no_dot [of "[]" rest] by simp
  moreover have "clauseKeyExpr clause = ''.'' @ join ''.'' segs"
    by (simp add: k segs join_splitDot)
  ultimately show ?thesis by simp
next
  case False
  with assms have "clauseKeyExpr clause = [] \<and> segs = [''innerText'']"
    by (auto simp: parseRule_key split: if_splits)
  then show ?thesis by simp
qed

lemma parseRule_fallback:
  "clauseKeyExpr clause = [] \<Longrightarrow> key (parseRule clause) = Path [''innerText'']"
  by (simp add: parseRule_key startsWith_def)

text \<open>
  A path written with dots comes back as written: parsing the segments joined by dots
  gives the segments.
\<close>

lemma splitDot_append_no_dot:
  "CHR ''.'' \<notin> set x \<Longrightarrow> splitDot piece (x @ rest) = splitDot (piece @ x) rest"
  by (induction x arbitrary: piece) auto

lemma splitDot_join:
  "segs \<noteq> [] \<Longrightarrow> \<forall>s \<in> set segs. CHR ''.'' \<notin> set s \<Longrightarrow>
   splitDot piece (join ''.'' segs) = (piece @ hd segs) # tl segs"
proof (induction segs arbitrary: piece)
  case Nil
  then show ?case by simp
next
  case (Cons x xs)
  show ?case
  proof (cases xs)
    case Nil
    with Cons.prems show ?thesis
      using splitDot_append_no_dot [of x piece "[]"] by simp
  next
    case (Cons y ys)
    have "splitDot piece (join ''.'' (x # xs)) = splitDot (piece @ x) (CHR ''.'' # join ''.'' xs)"
      using Cons.prems splitDot_append_no_dot [of x piece "CHR ''.'' # join ''.'' xs"]
      by (simp add: Cons)
    also have "\<dots> = (piece @ x) # splitDot [] (join ''.'' xs)" by simp
    also have "splitDot [] (join ''.'' xs) = ([] @ hd xs) # tl xs"
      using Cons.IH [of "[]"] Cons.prems by (simp add: Cons)
    finally show ?thesis by (simp add: Cons)
  qed
qed

lemma parseRule_path:
  assumes "segs \<noteq> []" "\<forall>s \<in> set segs. CHR ''.'' \<notin> set s"
    and "clauseKeyExpr clause = ''.'' @ join ''.'' segs"
  shows "key (parseRule clause) = Path segs"
  using assms splitDot_join [of segs "[]"]
  by (simp add: parseRule_key startsWith_def)

lemma parseRule_attr:
  assumes "clauseKeyExpr clause \<noteq> []" "\<not> startsWith CHR ''.'' (clauseKeyExpr clause)"
  shows "key (parseRule clause) = Attr (clauseKeyExpr clause)"
  using assms by (simp add: parseRule_key)

text \<open>
  Claim C8, amended. For every input, the key of every parsed rule is neither the empty
  string nor the empty sequence; the rules are the clauses parsed one by one. A clause
  whose key expression is empty gets the fallback key \<^verbatim>\<open>['innerText']\<close>; a key expression
  without a leading dot is the attribute key as it stands; a key expression that is a dot
  followed by segments joined by dots gives exactly those segments, so segments written
  non-empty are non-empty. The segments of a path key are always the pieces of the key
  expression between its dots: none holds a dot, and a piece between two dots that meet,
  or after a last dot, is an empty segment, which nothing in the parser rejects.
\<close>

theorem parsed_keys:
  "(\<forall>r \<in> set (parseToRules v). key r \<noteq> Attr [] \<and> key r \<noteq> Path [])
   \<and> (\<forall>s. s \<noteq> [] \<longrightarrow> parseToRules (Some s) = map parseRule (splitRules [] s))
   \<and> (\<forall>clause. clauseKeyExpr clause = [] \<longrightarrow> key (parseRule clause) = Path [''innerText''])
   \<and> (\<forall>clause. clauseKeyExpr clause \<noteq> [] \<and> \<not> startsWith CHR ''.'' (clauseKeyExpr clause) \<longrightarrow>
         key (parseRule clause) = Attr (clauseKeyExpr clause))
   \<and> (\<forall>clause segs. segs \<noteq> [] \<and> (\<forall>s \<in> set segs. CHR ''.'' \<notin> set s)
         \<and> clauseKeyExpr clause = ''.'' @ join ''.'' segs \<longrightarrow>
         key (parseRule clause) = Path segs)
   \<and> (\<forall>clause segs. key (parseRule clause) = Path segs \<longrightarrow>
         (\<forall>s \<in> set segs. CHR ''.'' \<notin> set s) \<and>
         (clauseKeyExpr clause = ''.'' @ join ''.'' segs \<or>
          clauseKeyExpr clause = [] \<and> segs = [''innerText'']))"
proof (intro conjI allI impI ballI)
  fix r assume "r \<in> set (parseToRules v)"
  then obtain clause where r: "r = parseRule clause"
    by (auto simp: parseToRules_def split: option.splits if_splits)
  show "key r \<noteq> Attr []" "key r \<noteq> Path []"
    using parseRule_key_not_empty [of clause] by (simp_all add: r)
next
  fix s :: string assume "s \<noteq> []"
  then show "parseToRules (Some s) = map parseRule (splitRules [] s)"
    by (simp add: parseToRules_def)
next
  fix clause assume "clauseKeyExpr clause = []"
  then show "key (parseRule clause) = Path [''innerText'']" by (rule parseRule_fallback)
next
  fix clause
  assume "clauseKeyExpr clause \<noteq> [] \<and> \<not> startsWith CHR ''.'' (clauseKeyExpr clause)"
  then show "key (parseRule clause) = Attr (clauseKeyExpr clause)"
    by (simp add: parseRule_attr)
next
  fix clause segs
  assume "segs \<noteq> [] \<and> (\<forall>s \<in> set segs. CHR ''.'' \<notin> set s)
          \<and> clauseKeyExpr clause = ''.'' @ join ''.'' segs"
  then show "key (parseRule clause) = Path segs"
    using parseRule_path [of segs clause] by blast
next
  fix clause segs s
  assume k: "key (parseRule clause) = Path segs"
  { assume "s \<in> set segs"
    with k show "CHR ''.'' \<notin> set s" using parseRule_segments [of clause segs] by simp }
  from k show "clauseKeyExpr clause = ''.'' @ join ''.'' segs \<or>
          clauseKeyExpr clause = [] \<and> segs = [''innerText'']"
    using parseRule_segments [of clause segs] by simp
qed

text \<open>
  Three clauses: a selector and the modifier without a key, a path of two segments, a
  descending attribute.
\<close>

theorem parsed_keys_witness:
  "parseToRules (Some ''{div label} >, .dataset.row, >href'') =
     [\<lparr>key = Path [''innerText''], selector = Some ''div label'', descending = Some True\<rparr>,
      \<lparr>key = Path [''dataset'', ''row''], selector = None, descending = Some False\<rparr>,
      \<lparr>key = Attr ''href'', selector = None, descending = Some True\<rparr>]
   \<and> clauseKeyExpr ''{div label} >'' = []
   \<and> key (parseRule ''{div label} >'') = Path [''innerText'']
   \<and> clauseKeyExpr ''.dataset.row'' = ''.'' @ join ''.'' [''dataset'', ''row'']
   \<and> key (parseRule ''.dataset.row'') = Path [''dataset'', ''row'']
   \<and> clauseKeyExpr ''>href'' = ''href''
   \<and> key (parseRule ''>href'') = Attr ''href''"
  using parsed_keys [of "Some ''{div label} >, .dataset.row, >href''"]
  by (simp add: parse_defs clauseKeyExpr_def)

text \<open>A single dot parses to a path of one segment, and the segment is empty.\<close>

theorem parse_dot_empty_segment:
  "parseToRules (Some ''.'') = [\<lparr>key = Path [[]], selector = None, descending = Some False\<rparr>]"
  by (simp add: parse_defs)

subsection \<open>Rendering and parsing again\<close>

text \<open>
  Claim C2. Rendering a rule list and parsing the text should give the list back. The
  template writes its space whether or not a selector comes before it, and the parser
  strips white space only after a closing brace: the rule for the attribute \<^verbatim>\<open>href\<close>
  renders as \<^verbatim>\<open>" href"\<close> and comes back with the key \<^verbatim>\<open>" href"\<close>.
\<close>

theorem by_roundtrip_bare_key:
  "by_getter [\<lparr>key = Attr ''href'', selector = None, descending = Some False\<rparr>] = '' href''
   \<and> parseToRules
         (Some (by_getter [\<lparr>key = Attr ''href'', selector = None, descending = Some False\<rparr>]))
       = [\<lparr>key = Attr '' href'', selector = None, descending = Some False\<rparr>]"
  by (simp add: by_getter_def renderRule_def parse_defs)

text \<open>With selectors in front, the same two steps give the rules back.\<close>

lemma by_roundtrip_with_selectors:
  "parseToRules (Some (by_getter
      [\<lparr>key = Path [''dataset'', ''row''], selector = Some ''div label'', descending = Some True\<rparr>,
       \<lparr>key = Attr ''x'', selector = Some ''a, b'', descending = Some False\<rparr>]))
   = [\<lparr>key = Path [''dataset'', ''row''], selector = Some ''div label'', descending = Some True\<rparr>,
      \<lparr>key = Attr ''x'', selector = Some ''a, b'', descending = Some False\<rparr>]"
  by (simp add: by_getter_def renderRule_def parse_defs)

section \<open>Reading values\<close>

lemma getValue_sameLookup: "sameLookup r r' \<Longrightarrow> getValue e r = getValue e r'"
  by (auto simp: sameLookup_def getValue_def split: option.splits)

text \<open>A property path that ends at not-a-number reads as \<^verbatim>\<open>undefined\<close>.\<close>

lemma getValue_NaN:
  assumes "resolve sortingElem (selector r) = Some elem" "key r = Path p"
    and "property elem (case p of [] \<Rightarrow> ''undefined'' | f # _ \<Rightarrow> f) = Some prop"
    and "traverse prop (tl p) = Some (Num NaN)"
  shows "getValue sortingElem r = Undefined"
  using assms by (simp add: getValue_def normalizeValue_def)

text \<open>
  Claim C9, amended. When the property path of a rule ends at an object, the value read
  is the object's \<^verbatim>\<open>length\<close> whenever that is neither \<^verbatim>\<open>undefined\<close> nor \<^verbatim>\<open>null\<close>,
  whatever its type; otherwise it is what the object's \<^verbatim>\<open>valueOf\<close> returns, which for a
  plain object is the object itself; otherwise, without a \<^verbatim>\<open>valueOf\<close>, it is
  \<^verbatim>\<open>undefined\<close>. This is the length of an array-like object in particular, and it is the
  value of the specification (length if array-like, else the primitive conversion, else
  missing) for every object whose length is a number, or whose length is missing and
  whose \<^verbatim>\<open>valueOf\<close> is missing or returns a primitive. A \<^verbatim>\<open>valueOf\<close> that is there is
  taken to be callable.
\<close>

theorem object_value:
  assumes "resolve sortingElem (selector r) = Some elem" "key r = Path p"
    and "property elem (case p of [] \<Rightarrow> ''undefined'' | f # _ \<Rightarrow> f) = Some prop"
    and "traverse prop (tl p) = Some obj" "obj = Object i ps vo"
  shows "getValue sortingElem r =
           (let viaValueOf =
                  (case vo of NotImplemented \<Rightarrow> Undefined | ReturnsThis \<Rightarrow> obj | Returns v \<Rightarrow> v)
            in case ps ''length'' of
                 None \<Rightarrow> viaValueOf
               | Some l \<Rightarrow> if l = Undefined \<or> l = Null then viaValueOf else l)
         \<and> ((arrayLike obj \<or>
              nullish (getProp obj ''length'') \<and>
              (case vo of NotImplemented \<Rightarrow> True | ReturnsThis \<Rightarrow> False | Returns v \<Rightarrow> isPrimitive v))
             \<longrightarrow> getValue sortingElem r = specObjectValue obj)"
proof -
  have n: "getValue sortingElem r = normalizeValue obj"
    using assms by (simp add: getValue_def)
  have 1: "normalizeValue obj =
           (let viaValueOf =
                  (case vo of NotImplemented \<Rightarrow> Undefined | ReturnsThis \<Rightarrow> obj | Returns v \<Rightarrow> v)
            in case ps ''length'' of
                 None \<Rightarrow> viaValueOf
               | Some l \<Rightarrow> if l = Undefined \<or> l = Null then viaValueOf else l)"
  proof (cases "ps ''length''")
    case None
    then show ?thesis using assms(5)
      by (cases vo) (simp_all add: normalizeValue_def returnAsIs_def coalesce_def)
  next
    case (Some l)
    then show ?thesis using assms(5)
      by (cases vo; cases l) (simp_all add: normalizeValue_def returnAsIs_def coalesce_def)
  qed
  have 2: "normalizeValue obj = specObjectValue obj"
    if "arrayLike obj \<or>
        nullish (getProp obj ''length'') \<and>
        (case vo of NotImplemented \<Rightarrow> True | ReturnsThis \<Rightarrow> False | Returns v \<Rightarrow> isPrimitive v)"
  proof (cases "ps ''length''")
    case None
    then show ?thesis using assms(5) that
      by (cases vo)
         (auto simp: normalizeValue_def returnAsIs_def coalesce_def specObjectValue_def
            arrayLike_def)
  next
    case (Some l)
    then show ?thesis using assms(5) that
      by (cases vo; cases l)
         (auto simp: normalizeValue_def returnAsIs_def coalesce_def specObjectValue_def
            arrayLike_def)
  qed
  from n 1 2 show ?thesis by simp
qed

text \<open>
  An element whose \<^verbatim>\<open>list\<close> has three entries, whose \<^verbatim>\<open>when\<close> is a date, whose
  \<^verbatim>\<open>bare\<close> is an object without \<^verbatim>\<open>valueOf\<close> and whose \<^verbatim>\<open>data\<close> is a plain object.
\<close>

theorem object_value_witness:
  "getValue
     (props [(''list'', Object 1 [''length'' \<mapsto> Num (Fin 3)] ReturnsThis),
             (''when'', Object 2 Map.empty (Returns (Num (Fin 86400000)))),
             (''bare'', Object 3 Map.empty NotImplemented),
             (''data'', Object 4 Map.empty ReturnsThis)])
     (propRule [''list''] False) = Num (Fin 3)
   \<and> specObjectValue (Object 1 [''length'' \<mapsto> Num (Fin 3)] ReturnsThis) = Num (Fin 3)
   \<and> getValue
     (props [(''list'', Object 1 [''length'' \<mapsto> Num (Fin 3)] ReturnsThis),
             (''when'', Object 2 Map.empty (Returns (Num (Fin 86400000)))),
             (''bare'', Object 3 Map.empty NotImplemented),
             (''data'', Object 4 Map.empty ReturnsThis)])
     (propRule [''when''] False) = Num (Fin 86400000)
   \<and> specObjectValue (Object 2 Map.empty (Returns (Num (Fin 86400000)))) = Num (Fin 86400000)
   \<and> getValue
     (props [(''list'', Object 1 [''length'' \<mapsto> Num (Fin 3)] ReturnsThis),
             (''when'', Object 2 Map.empty (Returns (Num (Fin 86400000)))),
             (''bare'', Object 3 Map.empty NotImplemented),
             (''data'', Object 4 Map.empty ReturnsThis)])
     (propRule [''bare''] False) = Undefined
   \<and> specObjectValue (Object 3 Map.empty NotImplemented) = Undefined
   \<and> getValue
     (props [(''list'', Object 1 [''length'' \<mapsto> Num (Fin 3)] ReturnsThis),
             (''when'', Object 2 Map.empty (Returns (Num (Fin 86400000)))),
             (''bare'', Object 3 Map.empty NotImplemented),
             (''data'', Object 4 Map.empty ReturnsThis)])
     (propRule [''data''] False) = Object 4 Map.empty ReturnsThis"
  using
    object_value [where sortingElem =
      "props [(''list'', Object 1 [''length'' \<mapsto> Num (Fin 3)] ReturnsThis),
              (''when'', Object 2 Map.empty (Returns (Num (Fin 86400000)))),
              (''bare'', Object 3 Map.empty NotImplemented),
              (''data'', Object 4 Map.empty ReturnsThis)]"
      and r = "propRule [''list''] False" and p = "[''list'']" and i = 1
      and ps = "[''length'' \<mapsto> Num (Fin 3)]" and vo = ReturnsThis]
    object_value [where sortingElem =
      "props [(''list'', Object 1 [''length'' \<mapsto> Num (Fin 3)] ReturnsThis),
              (''when'', Object 2 Map.empty (Returns (Num (Fin 86400000)))),
              (''bare'', Object 3 Map.empty NotImplemented),
              (''data'', Object 4 Map.empty ReturnsThis)]"
      and r = "propRule [''when''] False" and p = "[''when'']" and i = 2
      and ps = Map.empty and vo = "Returns (Num (Fin 86400000))"]
    object_value [where sortingElem =
      "props [(''list'', Object 1 [''length'' \<mapsto> Num (Fin 3)] ReturnsThis),
              (''when'', Object 2 Map.empty (Returns (Num (Fin 86400000)))),
              (''bare'', Object 3 Map.empty NotImplemented),
              (''data'', Object 4 Map.empty ReturnsThis)]"
      and r = "propRule [''bare''] False" and p = "[''bare'']" and i = 3
      and ps = Map.empty and vo = NotImplemented]
    object_value [where sortingElem =
      "props [(''list'', Object 1 [''length'' \<mapsto> Num (Fin 3)] ReturnsThis),
              (''when'', Object 2 Map.empty (Returns (Num (Fin 86400000)))),
              (''bare'', Object 3 Map.empty NotImplemented),
              (''data'', Object 4 Map.empty ReturnsThis)]"
      and r = "propRule [''data''] False" and p = "[''data'']" and i = 4
      and ps = Map.empty and vo = ReturnsThis]
  by (simp add: props_def propRule_def resolve_def arrayLike_def specObjectValue_def)

text \<open>
  A plain object, with the inherited \<^verbatim>\<open>valueOf\<close> and no length, reads as itself, where
  the specification gives missing: it has no primitive conversion. An object whose
  length is a string reads as that string, though it is not array-like and has no
  \<^verbatim>\<open>valueOf\<close>.
\<close>

theorem plain_object_reads_as_itself:
  "getValue (props [(''data'', Object 1 Map.empty ReturnsThis)]) (propRule [''data''] False)
     = Object 1 Map.empty ReturnsThis
   \<and> specObjectValue (Object 1 Map.empty ReturnsThis) = Undefined
   \<and> getValue (props [(''tag'', Object 2 [''length'' \<mapsto> Str ''abc''] NotImplemented)])
        (propRule [''tag''] False) = Str ''abc''
   \<and> specObjectValue (Object 2 [''length'' \<mapsto> Str ''abc''] NotImplemented) = Undefined"
  by (simp add: props_def propRule_def getValue_def resolve_def normalizeValue_def
      returnAsIs_def coalesce_def specObjectValue_def arrayLike_def)

section \<open>Comparing two elements\<close>

declare compareElements.simps [simp del]

lemma compareElements_Nil:
  "\<not> random this \<Longrightarrow> comparator this = None \<Longrightarrow> compareElements h this rnd a b [] = Fin 0"
  by (simp add: compareElements.simps)

lemma compareElements_Cons:
  "\<not> random this \<Longrightarrow> comparator this = None \<Longrightarrow>
   compareElements h this rnd a b (r # restRules) =
     (let lesser = (if effectiveDescending (reverse this) r then Fin 1 else Fin (- 1)) in
      if (nullish (getValue a r) \<and> nullish (getValue b r))
         \<or> strict_eq (getValue a r) (getValue b r)
      then compareElements h this rnd a b restRules
      else if nullish (getValue a r) then js_neg lesser
      else if nullish (getValue b r) then lesser
      else if js_lt h (getValue a r) (getValue b r) then lesser
      else js_neg lesser)"
  by (subst compareElements.simps)
     (auto simp: Let_def effectiveDescending_def compareElements_Nil)

lemmas example_defs =
  plain_def attrs_def props_def attrRule_def propRule_def no_host_lt_def getValue_def
  resolve_def normalizeValue_def returnAsIs_def effectiveDescending_def sameLookup_def
  compare_def

text \<open>
  Claim C6. With a custom comparator and \<^verbatim>\<open>random\<close> off, the result is the custom
  comparator's result, negated when \<^verbatim>\<open>reverse\<close> is set. The rules and the values
  they would read play no part: any other rule list gives the same result.
\<close>

theorem custom_comparator:
  assumes "\<not> random this" "comparator this = Some cmp"
  shows "compareElements h this rnd a b rs = (if reverse this then js_neg (cmp a b) else cmp a b)
         \<and> compareElements h this rnd a b rs = compareElements h' this rnd' a b rs'"
  using assms by (simp add: compareElements.simps)

theorem custom_comparator_witness:
  "compareElements no_host_lt (plain\<lparr>comparator := Some (\<lambda>a b. Fin 7), reverse := True\<rparr>) 0
     (attrs [(''x'', ''a'')]) (attrs [(''x'', ''b'')]) [attrRule ''x'' False] = Fin (- 7)
   \<and> compareElements no_host_lt (plain\<lparr>comparator := Some (\<lambda>a b. Fin 7)\<rparr>) 0
     (attrs [(''x'', ''a'')]) (attrs [(''x'', ''b'')]) [attrRule ''x'' False] = Fin 7
   \<and> compareElements no_host_lt (plain\<lparr>comparator := Some (\<lambda>a b. Fin 7)\<rparr>) 0
     (attrs [(''x'', ''a'')]) (attrs [(''x'', ''b'')]) [attrRule ''x'' False]
     = compareElements no_host_lt (plain\<lparr>comparator := Some (\<lambda>a b. Fin 7)\<rparr>) (3 / 4)
     (attrs [(''x'', ''a'')]) (attrs [(''x'', ''b'')]) []"
  using
    custom_comparator [of "plain\<lparr>comparator := Some (\<lambda>a b. Fin 7), reverse := True\<rparr>"
      "\<lambda>a b. Fin 7" no_host_lt 0 "attrs [(''x'', ''a'')]" "attrs [(''x'', ''b'')]"
      "[attrRule ''x'' False]" no_host_lt "3 / 4" "[]"]
    custom_comparator [of "plain\<lparr>comparator := Some (\<lambda>a b. Fin 7)\<rparr>"
      "\<lambda>a b. Fin 7" no_host_lt 0 "attrs [(''x'', ''a'')]" "attrs [(''x'', ''b'')]"
      "[attrRule ''x'' False]" no_host_lt "3 / 4" "[]"]
  by (simp add: compareElements.simps plain_def)

text \<open>
  Claim C5. When the values of the first rule are both missing or strictly equal, the
  result is the result on the remaining rules; on the empty rule list the result is 0.
\<close>

theorem tie_break:
  assumes "\<not> random this" "comparator this = None"
    and "(nullish (getValue a r) \<and> nullish (getValue b r))
         \<or> strict_eq (getValue a r) (getValue b r)"
  shows "compareElements h this rnd a b (r # restRules) = compareElements h this rnd a b restRules
         \<and> compareElements h this rnd a b [] = Fin 0"
  using assms by (simp add: compareElements_Cons compareElements_Nil)

text \<open>Two elements with the same \<^verbatim>\<open>x\<close> and different \<^verbatim>\<open>y\<close>.\<close>

theorem tie_break_witness:
  "strict_eq (getValue (attrs [(''x'', ''k''), (''y'', ''1'')]) (attrRule ''x'' False))
             (getValue (attrs [(''x'', ''k''), (''y'', ''2'')]) (attrRule ''x'' False))
   \<and> compareElements no_host_lt plain 0
        (attrs [(''x'', ''k''), (''y'', ''1'')]) (attrs [(''x'', ''k''), (''y'', ''2'')])
        [attrRule ''x'' False, attrRule ''y'' False]
     = compareElements no_host_lt plain 0
        (attrs [(''x'', ''k''), (''y'', ''1'')]) (attrs [(''x'', ''k''), (''y'', ''2'')])
        [attrRule ''y'' False]
   \<and> compareElements no_host_lt plain 0
        (attrs [(''x'', ''k''), (''y'', ''1'')]) (attrs [(''x'', ''k''), (''y'', ''2'')])
        [attrRule ''y'' False] = Fin (- 1)"
  using tie_break [of plain "attrs [(''x'', ''k''), (''y'', ''1'')]" "attrRule ''x'' False"
      "attrs [(''x'', ''k''), (''y'', ''2'')]" no_host_lt 0 "[attrRule ''y'' False]"]
  by (simp add: compareElements.simps example_defs)

subsection \<open>Direction\<close>

text \<open>
  The result depends on \<^verbatim>\<open>reverse\<close> and on the \<^verbatim>\<open>descending\<close> of the rules only
  through the effective direction of each rule.
\<close>

lemma compareElements_direction:
  assumes "\<not> random this" "comparator this = None" "\<not> random this'" "comparator this' = None"
    and "list_all2 (\<lambda>r r'. sameLookup r r' \<and>
           effectiveDescending (reverse this) r = effectiveDescending (reverse this') r') rs rs'"
  shows "compareElements h this rnd a b rs = compareElements h this' rnd' a b rs'"
  using assms(5)
proof (induction rs rs' rule: list_all2_induct)
  case Nil
  show ?case using assms(1-4) by (simp add: compareElements_Nil)
next
  case (Cons r rs r' rs')
  then have v: "getValue a r = getValue a r'" "getValue b r = getValue b r'"
    by (simp_all add: getValue_sameLookup)
  from Cons show ?case using assms(1-4)
    by (simp add: compareElements_Cons v Let_def cong: if_cong)
qed

lemma compareElements_distinct:
  assumes "\<not> random this" "comparator this = None"
    and "\<not> nullish (getValue a r)" "\<not> nullish (getValue b r)"
    and "\<not> strict_eq (getValue a r) (getValue b r)"
  shows "compareElements h this rnd a b (r # restRules) =
           (if js_lt h (getValue a r) (getValue b r) = effectiveDescending (reverse this) r
            then Fin 1 else Fin (- 1))"
  using assms by (simp add: compareElements_Cons Let_def)

text \<open>
  Claim C4. The direction of a comparison is the exclusive or of \<^verbatim>\<open>reverse\<close> and the
  rule's \<^verbatim>\<open>descending\<close>: two settings that give every rule the same effective direction
  give the same result, and on two present, different values the result is 1 exactly when
  "the first is less" and "the effective direction is descending" agree, and -1 otherwise.
  So \<^verbatim>\<open>reverse\<close> with a descending rule compares like neither.
\<close>

theorem effective_direction_xor:
  assumes "\<not> random this" "comparator this = None" "\<not> random this'" "comparator this' = None"
  shows "(list_all2 (\<lambda>r r'. sameLookup r r' \<and>
            effectiveDescending (reverse this) r = effectiveDescending (reverse this') r') rs rs'
          \<longrightarrow> compareElements h this rnd a b rs = compareElements h this' rnd a b rs')
       \<and> (\<not> nullish (getValue a r) \<and> \<not> nullish (getValue b r)
            \<and> \<not> strict_eq (getValue a r) (getValue b r)
          \<longrightarrow> compareElements h this rnd a b (r # restRules) =
               (if js_lt h (getValue a r) (getValue b r) = effectiveDescending (reverse this) r
                then Fin 1 else Fin (- 1)))"
  using assms compareElements_direction [of this this' rs rs' h rnd a b rnd]
    compareElements_distinct [of this a r b h rnd restRules]
  by blast

theorem effective_direction_xor_witness:
  "compareElements no_host_lt (plain\<lparr>reverse := True\<rparr>) 0
      (attrs [(''x'', ''a'')]) (attrs [(''x'', ''b'')]) [attrRule ''x'' True]
   = compareElements no_host_lt plain 0
      (attrs [(''x'', ''a'')]) (attrs [(''x'', ''b'')]) [attrRule ''x'' False]
   \<and> compareElements no_host_lt (plain\<lparr>reverse := True\<rparr>) 0
      (attrs [(''x'', ''a'')]) (attrs [(''x'', ''b'')]) [attrRule ''x'' True] = Fin (- 1)
   \<and> compareElements no_host_lt (plain\<lparr>reverse := True\<rparr>) 0
      (attrs [(''x'', ''a'')]) (attrs [(''x'', ''b'')]) [attrRule ''x'' False] = Fin 1"
  using
    effective_direction_xor [of "plain\<lparr>reverse := True\<rparr>" plain
      "[attrRule ''x'' True]" "[attrRule ''x'' False]" no_host_lt 0
      "attrs [(''x'', ''a'')]" "attrs [(''x'', ''b'')]" "attrRule ''x'' True" "[]"]
    effective_direction_xor [of "plain\<lparr>reverse := True\<rparr>" plain
      "[attrRule ''x'' True]" "[attrRule ''x'' False]" no_host_lt 0
      "attrs [(''x'', ''a'')]" "attrs [(''x'', ''b'')]" "attrRule ''x'' False" "[]"]
  by (simp add: compareElements.simps example_defs)

subsection \<open>Determinism\<close>






text \<open>With \<^verbatim>\<open>random\<close> on, the result is the draw.\<close>

lemma random_draws:
  "compareElements h (plain\<lparr>random := True\<rparr>) 0 a b rs = Fin (- 1 / 2)
   \<and> compareElements h (plain\<lparr>random := True\<rparr>) (3 / 4) a b rs = Fin (1 / 4)"
  by (simp add: compareElements.simps plain_def)

subsection \<open>Missing values\<close>

text \<open>
  A present value against a missing one returns \<open>lesser\<close>, which is -1 on an ascending
  effective direction and 1 on a descending one.
\<close>

lemma present_against_missing:
  assumes "\<not> random this" "comparator this = None"
    and "\<not> nullish (getValue a r)" "nullish (getValue b r)"
  shows "compareElements h this rnd a b (r # restRules) =
           (if effectiveDescending (reverse this) r then Fin 1 else Fin (- 1))"
  using assms by (auto simp: compareElements_Cons Let_def elim: strict_eq.elims)

text \<open>
  Claim C1. A present value should order before a missing one whatever the flags. On a
  descending rule, and likewise under \<^verbatim>\<open>reverse\<close>, the element with the value \<^verbatim>\<open>"b"\<close>
  compares as greater than the element without the attribute: the result is 1, which
  puts the missing value first. The comment in the source says that nullish values go to
  the end.
\<close>

theorem missing_first_when_descending:
  "getValue (attrs [(''x'', ''b'')]) (attrRule ''x'' True) = Str ''b''
   \<and> getValue (attrs []) (attrRule ''x'' True) = Null
   \<and> compareElements no_host_lt plain 0 (attrs [(''x'', ''b'')]) (attrs [])
        [attrRule ''x'' True] = Fin 1
   \<and> compareElements no_host_lt (plain\<lparr>reverse := True\<rparr>) 0 (attrs [(''x'', ''b'')]) (attrs [])
        [attrRule ''x'' False] = Fin 1"
  by (simp add: compareElements.simps example_defs)

text \<open>
  Claim C7. Not-a-number reads as missing, and should therefore sink to the end on any
  rule. It reads as missing; on a descending rule the element with 5 compares as
  greater than the element with not-a-number (1, and -1 the other way round), which puts
  not-a-number first.
\<close>

theorem nan_first_when_descending:
  "getValue (props [(''n'', Num NaN)]) (propRule [''n''] True) = Undefined
   \<and> getValue (props [(''n'', Num (Fin 5))]) (propRule [''n''] True) = Num (Fin 5)
   \<and> compareElements no_host_lt plain 0 (props [(''n'', Num (Fin 5))]) (props [(''n'', Num NaN)])
        [propRule [''n''] True] = Fin 1
   \<and> compareElements no_host_lt plain 0 (props [(''n'', Num NaN)]) (props [(''n'', Num (Fin 5))])
        [propRule [''n''] True] = Fin (- 1)"
  by (simp add: compareElements.simps example_defs)


end
